theory Spec2Isabelle
  imports Main "HOL-Library.Word"
begin

unbundle bit_operations_syntax

section \<open>Static site deployment: asset upload plan and cache invalidation\<close>

text \<open>
  A shallow embedding of the planning logic of
  \<^verbatim>\<open>pkg/platform/src/components/aws/static-site.ts\<close>: the functions
  \<^verbatim>\<open>buildApp\<close>, \<^verbatim>\<open>uploadAssets\<close>, \<^verbatim>\<open>getContentType\<close> and
  \<^verbatim>\<open>createDistributionInvalidation\<close> of the \<^verbatim>\<open>StaticSite\<close> constructor.
  Calls that read the machine (glob, fs, path.resolve, execSync, the process
  environment) and the SHA-256 digest are fields of a record of the host system;
  the MD5 digest and \<^verbatim>\<open>path.extname\<close> are functions; the component's own control
  flow is written out.
\<close>

subsection \<open>Data\<close>

type_synonym bytes = "8 word list"

text \<open>
  \<^verbatim>\<open>interface FileOptions\<close>. \<^verbatim>\<open>files: string | string[]\<close> is a list of patterns (one
  pattern is a one-element list); an optional property that is omitted is \<open>None\<close>.
\<close>

record FileOptions =
  fo_files :: "string list"
  fo_ignore :: "string list option"
  fo_cacheControl :: "string option"
  fo_contentType :: "string option"

text \<open>The \<^verbatim>\<open>assets\<close> property of \<^verbatim>\<open>StaticSiteArgs\<close>.\<close>

record AssetsArgs =
  as_textEncoding :: "string option"
  as_fileOptions :: "FileOptions list option"

text \<open>The objects pushed on \<^verbatim>\<open>bucketFiles\<close>.\<close>

record BucketFile =
  bf_source :: string
  bf_key :: string
  bf_hash :: string
  bf_cacheControl :: "string option"
  bf_contentType :: string

text \<open>The options object handed to \<^verbatim>\<open>globSync\<close>; an option left out is false or \<open>None\<close>.\<close>

record GlobOptions =
  go_cwd :: string
  go_nodir :: bool
  go_dot :: bool
  go_follow :: bool
  go_ignore :: "string list option"

text \<open>
  An optional property of an object: left out, present with the value
  \<^verbatim>\<open>undefined\<close>, or present with a value. The object spread in
  \<^verbatim>\<open>createDistributionInvalidation\<close> tells the first two apart. Everywhere else the
  component reads an omitted and an undefined property alike (\<^verbatim>\<open>??\<close>, \<^verbatim>\<open>?.\<close>, or
  passing the value on), and \<open>option\<close> is used.
\<close>

datatype 'a property = Absent | Undefined | Value 'a

text \<open>
  The \<^verbatim>\<open>invalidation\<close> property: \<^verbatim>\<open>false\<close>, omitted, or an object with the
  optional properties \<^verbatim>\<open>wait\<close> and \<^verbatim>\<open>paths\<close>.
\<close>

datatype InvalidationPaths = All | Paths "string list"

datatype InvalidationRaw =
  InvFalse
| InvUndefined
| InvObject "bool property" "InvalidationPaths property"

text \<open>
  The arguments of the \<^verbatim>\<open>DistributionInvalidation\<close> resource that is created;
  \<open>ir_wait\<close> is \<open>None\<close> where \<^verbatim>\<open>undefined\<close> is passed.
\<close>

record InvalidationRequest =
  ir_paths :: "string list"
  ir_version :: string
  ir_wait :: "bool option"

text \<open>
  What is thrown: a \<^verbatim>\<open>VisibleError\<close> with its message, the error of a failed read
  (its fields are left out), or the \<^verbatim>\<open>TypeError\<close> of reading a property of
  \<^verbatim>\<open>undefined\<close>.
\<close>

datatype error =
  VisibleError string
| ReadError
| TypeError

text \<open>
  The host: what the component reads from its libraries and the process.
  \<open>readFile\<close> is \<open>None\<close> where \<^verbatim>\<open>fs.promises.readFile\<close> rejects and
  \<^verbatim>\<open>fs.readFileSync\<close> throws; \<open>execSync\<close> is false where the command throws;
  \<open>sha256_hex\<close> is \<^verbatim>\<open>crypto.createHash("sha256").update(content).digest("hex")\<close>.
\<close>

record sys =
  globSync :: "string list \<Rightarrow> GlobOptions \<Rightarrow> string list"
  readFile :: "string \<Rightarrow> bytes option"
  existsSync :: "string \<Rightarrow> bool"
  path_resolve :: "string list \<Rightarrow> string"
  path_join :: "string list \<Rightarrow> string"
  sha256_hex :: "bytes \<Rightarrow> string"
  execSync :: "string \<Rightarrow> string \<Rightarrow> bool"
  env_SKIP :: bool
  dev :: bool
  cli_paths_platform :: string

subsection \<open>Digests\<close>

text \<open>
  \<^verbatim>\<open>crypto.createHash("md5")\<close> with \<^verbatim>\<open>digest("hex")\<close>: MD5 as RFC 1321 defines
  it, over 32-bit words.
\<close>

definition le64_bytes :: "64 word \<Rightarrow> bytes" where
  "le64_bytes w = map (\<lambda>i. ucast (drop_bit (8 * i) w)) [0..<8]"

fun chunks :: "nat \<Rightarrow> 'a list \<Rightarrow> 'a list list" where
  "chunks n [] = []"
| "chunks n (x # xs) =
     (if n = 0 then [] else take n (x # xs) # chunks n (drop n (x # xs)))"

definition hex_digit :: "nat \<Rightarrow> char" where
  "hex_digit n = ''0123456789abcdef'' ! (n mod 16)"

definition hex :: "bytes \<Rightarrow> string" where
  "hex bs =
     concat (map (\<lambda>b. [hex_digit (unat (drop_bit 4 b)), hex_digit (unat (b AND 0xf))]) bs)"

definition md5_K :: "32 word list" where
  "md5_K =
    [0xd76aa478, 0xe8c7b756, 0x242070db, 0xc1bdceee, 0xf57c0faf, 0x4787c62a, 0xa8304613, 0xfd469501,
     0x698098d8, 0x8b44f7af, 0xffff5bb1, 0x895cd7be, 0x6b901122, 0xfd987193, 0xa679438e, 0x49b40821,
     0xf61e2562, 0xc040b340, 0x265e5a51, 0xe9b6c7aa, 0xd62f105d, 0x02441453, 0xd8a1e681, 0xe7d3fbc8,
     0x21e1cde6, 0xc33707d6, 0xf4d50d87, 0x455a14ed, 0xa9e3e905, 0xfcefa3f8, 0x676f02d9, 0x8d2a4c8a,
     0xfffa3942, 0x8771f681, 0x6d9d6122, 0xfde5380c, 0xa4beea44, 0x4bdecfa9, 0xf6bb4b60, 0xbebfbc70,
     0x289b7ec6, 0xeaa127fa, 0xd4ef3085, 0x04881d05, 0xd9d4d039, 0xe6db99e5, 0x1fa27cf8, 0xc4ac5665,
     0xf4292244, 0x432aff97, 0xab9423a7, 0xfc93a039, 0x655b59c3, 0x8f0ccc92, 0xffeff47d, 0x85845dd1,
     0x6fa87e4f, 0xfe2ce6e0, 0xa3014314, 0x4e0811a1, 0xf7537e82, 0xbd3af235, 0x2ad7d2bb, 0xeb86d391]"

definition md5_s :: "nat list" where
  "md5_s =
    [7, 12, 17, 22, 7, 12, 17, 22, 7, 12, 17, 22, 7, 12, 17, 22,
     5, 9, 14, 20, 5, 9, 14, 20, 5, 9, 14, 20, 5, 9, 14, 20,
     4, 11, 16, 23, 4, 11, 16, 23, 4, 11, 16, 23, 4, 11, 16, 23,
     6, 10, 15, 21, 6, 10, 15, 21, 6, 10, 15, 21, 6, 10, 15, 21]"

definition md5_pad :: "bytes \<Rightarrow> bytes" where
  "md5_pad m =
     m @ [0x80] @ replicate ((55 + 64 - length m mod 64) mod 64) 0
       @ le64_bytes (8 * of_nat (length m))"

definition le32 :: "bytes \<Rightarrow> 32 word" where
  "le32 bs = foldr (\<lambda>b w. ucast b OR push_bit 8 w) bs 0"

definition le32_bytes :: "32 word \<Rightarrow> bytes" where
  "le32_bytes w = map (\<lambda>i. ucast (drop_bit (8 * i) w)) [0..<4]"

type_synonym md5_state = "32 word \<times> 32 word \<times> 32 word \<times> 32 word"

definition md5_step :: "32 word list \<Rightarrow> md5_state \<Rightarrow> nat \<Rightarrow> md5_state" where
  "md5_step M st i =
     (case st of (a, b, c, d) \<Rightarrow>
       (let fg = (if i < 16 then ((b AND c) OR (NOT b AND d), i)
                  else if i < 32 then ((d AND b) OR (NOT d AND c), (5 * i + 1) mod 16)
                  else if i < 48 then (b XOR c XOR d, (3 * i + 5) mod 16)
                  else (c XOR (b OR NOT d), (7 * i) mod 16));
            f = fst fg + a + md5_K ! i + M ! snd fg
        in (d, b + word_rotl (md5_s ! i) f, b, c)))"

definition md5_block :: "md5_state \<Rightarrow> bytes \<Rightarrow> md5_state" where
  "md5_block st blk =
     (case st of (a0, b0, c0, d0) \<Rightarrow>
       (case foldl (md5_step (map le32 (chunks 4 blk))) st [0..<64] of
          (a, b, c, d) \<Rightarrow> (a0 + a, b0 + b, c0 + c, d0 + d)))"

definition md5_hex :: "bytes \<Rightarrow> string" where
  "md5_hex m =
     (case foldl md5_block (0x67452301, 0xefcdab89, 0x98badcfe, 0x10325476)
             (chunks 64 (md5_pad m)) of
        (a, b, c, d) \<Rightarrow> hex (concat (map le32_bytes [a, b, c, d])))"

subsection \<open>getContentType\<close>

text \<open>\<^verbatim>\<open>String.prototype.endsWith\<close>.\<close>

definition endsWith :: "string \<Rightarrow> string \<Rightarrow> bool" where
  "endsWith s t = (length t \<le> length s \<and> drop (length s - length t) s = t)"

text \<open>
  \<^verbatim>\<open>path.extname\<close> of Node (POSIX): the scan from the end of the path that its
  implementation makes, with the same five variables. The loop stops at the first
  separator that follows a non-separator.
\<close>

record extname_state =
  startDot :: int
  startPart :: int
  end_pos :: int
  matchedSlash :: bool
  preDotState :: int

fun extname_scan :: "string \<Rightarrow> nat \<Rightarrow> extname_state \<Rightarrow> extname_state" where
  "extname_scan p 0 st = st"
| "extname_scan p (Suc i) st =
     (let code = p ! i in
      if code = CHR ''/'' then
        (if \<not> matchedSlash st then st\<lparr>startPart := int i + 1\<rparr>
         else extname_scan p i st)
      else
        (let st1 = (if end_pos st = -1
                    then st\<lparr>matchedSlash := False, end_pos := int i + 1\<rparr> else st);
             st2 = (if code = CHR ''.'' then
                      (if startDot st1 = -1 then st1\<lparr>startDot := int i\<rparr>
                       else if preDotState st1 \<noteq> 1 then st1\<lparr>preDotState := 1\<rparr>
                       else st1)
                    else if startDot st1 \<noteq> -1 then st1\<lparr>preDotState := -1\<rparr>
                    else st1)
         in extname_scan p i st2))"

definition extname :: "string \<Rightarrow> string" where
  "extname p =
     (let st = extname_scan p (length p)
                 \<lparr>startDot = -1, startPart = 0, end_pos = -1,
                  matchedSlash = True, preDotState = 0\<rparr>
      in if startDot st = -1 \<or> end_pos st = -1 \<or> preDotState st = 0
            \<or> (preDotState st = 1 \<and> startDot st = end_pos st - 1
                \<and> startDot st = startPart st + 1)
         then []
         else take (nat (end_pos st - startDot st)) (drop (nat (startDot st)) p))"

record ExtensionData =
  ed_mime :: string
  ed_isText :: bool

definition extensions :: "(string \<times> ExtensionData) list" where
  "extensions =
    [(''.txt'', \<lparr>ed_mime = ''text/plain'', ed_isText = True\<rparr>),
     (''.htm'', \<lparr>ed_mime = ''text/html'', ed_isText = True\<rparr>),
     (''.html'', \<lparr>ed_mime = ''text/html'', ed_isText = True\<rparr>),
     (''.xhtml'', \<lparr>ed_mime = ''application/xhtml+xml'', ed_isText = True\<rparr>),
     (''.css'', \<lparr>ed_mime = ''text/css'', ed_isText = True\<rparr>),
     (''.js'', \<lparr>ed_mime = ''text/javascript'', ed_isText = True\<rparr>),
     (''.mjs'', \<lparr>ed_mime = ''text/javascript'', ed_isText = True\<rparr>),
     (''.apng'', \<lparr>ed_mime = ''image/apng'', ed_isText = False\<rparr>),
     (''.avif'', \<lparr>ed_mime = ''image/avif'', ed_isText = False\<rparr>),
     (''.gif'', \<lparr>ed_mime = ''image/gif'', ed_isText = False\<rparr>),
     (''.jpeg'', \<lparr>ed_mime = ''image/jpeg'', ed_isText = False\<rparr>),
     (''.jpg'', \<lparr>ed_mime = ''image/jpeg'', ed_isText = False\<rparr>),
     (''.png'', \<lparr>ed_mime = ''image/png'', ed_isText = False\<rparr>),
     (''.svg'', \<lparr>ed_mime = ''image/svg+xml'', ed_isText = True\<rparr>),
     (''.bmp'', \<lparr>ed_mime = ''image/bmp'', ed_isText = False\<rparr>),
     (''.tiff'', \<lparr>ed_mime = ''image/tiff'', ed_isText = False\<rparr>),
     (''.webp'', \<lparr>ed_mime = ''image/webp'', ed_isText = False\<rparr>),
     (''.ico'', \<lparr>ed_mime = ''image/vnd.microsoft.icon'', ed_isText = False\<rparr>),
     (''.eot'', \<lparr>ed_mime = ''application/vnd.ms-fontobject'', ed_isText = False\<rparr>),
     (''.ttf'', \<lparr>ed_mime = ''font/ttf'', ed_isText = False\<rparr>),
     (''.otf'', \<lparr>ed_mime = ''font/otf'', ed_isText = False\<rparr>),
     (''.woff'', \<lparr>ed_mime = ''font/woff'', ed_isText = False\<rparr>),
     (''.woff2'', \<lparr>ed_mime = ''font/woff2'', ed_isText = False\<rparr>),
     (''.json'', \<lparr>ed_mime = ''application/json'', ed_isText = True\<rparr>),
     (''.jsonld'', \<lparr>ed_mime = ''application/ld+json'', ed_isText = True\<rparr>),
     (''.xml'', \<lparr>ed_mime = ''application/xml'', ed_isText = True\<rparr>),
     (''.pdf'', \<lparr>ed_mime = ''application/pdf'', ed_isText = False\<rparr>),
     (''.zip'', \<lparr>ed_mime = ''application/zip'', ed_isText = False\<rparr>),
     (''.wasm'', \<lparr>ed_mime = ''application/wasm'', ed_isText = False\<rparr>)]"

text \<open>The first two lines of \<^verbatim>\<open>getContentType\<close>: the extension that is looked up.\<close>

definition file_ext :: "string \<Rightarrow> string" where
  "file_ext filename =
     (if endsWith filename ''.well-known/site-association-json'' then ''.json''
      else extname filename)"

definition getContentType :: "string \<Rightarrow> string \<Rightarrow> string" where
  "getContentType filename textEncoding =
     (let ext = file_ext filename;
          extensionData = map_of extensions ext;
          mime = (case extensionData of
                    Some d \<Rightarrow> ed_mime d
                  | None \<Rightarrow> ''application/octet-stream'');
          charset = (if (case extensionData of Some d \<Rightarrow> ed_isText d | None \<Rightarrow> False)
                        \<and> textEncoding \<noteq> ''none''
                     then '';charset='' @ textEncoding
                     else [])
      in mime @ charset)"

subsection \<open>buildApp\<close>

text \<open>
  The result is the output path, or the \<^verbatim>\<open>VisibleError\<close> that is thrown.
  \<^verbatim>\<open>buildCommand && !process.env.SKIP\<close>: the empty string is falsy.
\<close>

definition buildApp ::
  "sys \<Rightarrow> string \<Rightarrow> string \<Rightarrow> string option \<Rightarrow> string option \<Rightarrow> error + string" where
  "buildApp s name sitePath buildCommand buildOutput =
     (if dev s then Inr (path_join s [cli_paths_platform s, ''functions'', ''empty-site''])
      else if (case buildCommand of
                 Some c \<Rightarrow> c \<noteq> [] \<and> \<not> env_SKIP s \<and> \<not> execSync s c sitePath
               | None \<Rightarrow> False)
      then Inl (VisibleError (''There was a problem building the '' @ [CHR 0x22] @ name
                                @ [CHR 0x22] @ '' site.''))
      else (let outputPath = (case buildOutput of Some b \<Rightarrow> b | None \<Rightarrow> sitePath) in
            if \<not> existsSync s outputPath
            then Inl (VisibleError (''No build output found at '' @ [CHR 0x22]
                                      @ path_resolve s [outputPath] @ [CHR 0x22]))
            else Inr outputPath))"

subsection \<open>uploadAssets\<close>

text \<open>The \<^verbatim>\<open>fileOptions\<close> array as it is built, in declaration order.\<close>

definition fileOptions :: "AssetsArgs option \<Rightarrow> FileOptions list" where
  "fileOptions assets =
     [\<lparr>fo_files = [''**''], fo_ignore = None,
       fo_cacheControl = Some ''max-age=0,no-cache,no-store,must-revalidate'',
       fo_contentType = None\<rparr>,
      \<lparr>fo_files = [''**/*.js'', ''**/*.css''], fo_ignore = None,
       fo_cacheControl = Some ''max-age=31536000,public,immutable'',
       fo_contentType = None\<rparr>]
     @ (case assets of
          None \<Rightarrow> []
        | Some a \<Rightarrow> (case as_fileOptions a of None \<Rightarrow> [] | Some l \<Rightarrow> l))"

text \<open>The \<^verbatim>\<open>globSync\<close> call of one loop iteration, before the filter.\<close>

definition rule_glob :: "sys \<Rightarrow> string \<Rightarrow> FileOptions \<Rightarrow> string list" where
  "rule_glob s outputPath fileOption =
     globSync s (fo_files fileOption)
       \<lparr>go_cwd = path_resolve s [outputPath], go_nodir = True, go_dot = True,
        go_follow = False, go_ignore = fo_ignore fileOption\<rparr>"

text \<open>The async callback mapped over \<^verbatim>\<open>files\<close>: it rejects where the read does.\<close>

definition upload_file :: "sys \<Rightarrow> string \<Rightarrow> FileOptions \<Rightarrow> string \<Rightarrow> error + BucketFile" where
  "upload_file s outputPath fileOption file =
     (let source = path_resolve s [outputPath, file] in
      case readFile s source of
        None \<Rightarrow> Inl ReadError
      | Some content \<Rightarrow>
          Inr \<lparr>bf_source = source, bf_key = file, bf_hash = sha256_hex s content,
               bf_cacheControl = fo_cacheControl fileOption,
               bf_contentType = getContentType file ''UTF-8''\<rparr>)"

text \<open>
  \<^verbatim>\<open>Promise.all\<close>: the results in order when every promise fulfils, a rejection when
  one rejects (here the one of the first file in the list that fails).
\<close>

fun promise_all :: "(error + 'a) list \<Rightarrow> error + 'a list" where
  "promise_all [] = Inr []"
| "promise_all (Inl e # ps) = Inl e"
| "promise_all (Inr v # ps) =
     (case promise_all ps of Inl e \<Rightarrow> Inl e | Inr vs \<Rightarrow> Inr (v # vs))"

text \<open>
  The \<^verbatim>\<open>for\<close> loop over the reversed options, with its two accumulators
  \<^verbatim>\<open>bucketFiles\<close> and \<^verbatim>\<open>filesUploaded\<close>.
\<close>

fun upload_loop ::
  "sys \<Rightarrow> string \<Rightarrow> FileOptions list \<Rightarrow> BucketFile list \<Rightarrow> string list
     \<Rightarrow> error + BucketFile list" where
  "upload_loop s outputPath [] bucketFiles filesUploaded = Inr bucketFiles"
| "upload_loop s outputPath (fileOption # rest) bucketFiles filesUploaded =
     (let files = filter (\<lambda>file. file \<notin> set filesUploaded)
                    (rule_glob s outputPath fileOption) in
      case promise_all (map (upload_file s outputPath fileOption) files) of
        Inl e \<Rightarrow> Inl e
      | Inr uploaded \<Rightarrow>
          upload_loop s outputPath rest (bucketFiles @ uploaded) (filesUploaded @ files))"

text \<open>The \<^verbatim>\<open>files\<close> argument of the \<^verbatim>\<open>BucketFiles\<close> resource, or the rejection.\<close>

definition uploadAssets :: "sys \<Rightarrow> string \<Rightarrow> AssetsArgs option \<Rightarrow> error + BucketFile list" where
  "uploadAssets s outputPath assets =
     upload_loop s outputPath (rev (fileOptions assets)) [] []"

text \<open>
  The constructor chains the two: \<^verbatim>\<open>uploadAssets\<close> applies to the output of
  \<^verbatim>\<open>buildApp\<close>, so it does not run when \<^verbatim>\<open>buildApp\<close> throws.
\<close>

definition planAssets ::
  "sys \<Rightarrow> string \<Rightarrow> string \<Rightarrow> string option \<Rightarrow> string option \<Rightarrow> AssetsArgs option
     \<Rightarrow> error + BucketFile list" where
  "planAssets s name sitePath buildCommand buildOutput assets =
     (case buildApp s name sitePath buildCommand buildOutput of
        Inl e \<Rightarrow> Inl e
      | Inr outputPath \<Rightarrow> uploadAssets s outputPath assets)"

subsection \<open>createDistributionInvalidation\<close>

text \<open>
  \<^verbatim>\<open>{ wait: false, paths: "all", ...invalidationRaw }\<close>: a property that the raw object
  has replaces the default, also when its value is \<^verbatim>\<open>undefined\<close> (\<open>None\<close> below).
\<close>

definition spread :: "'a \<Rightarrow> 'a property \<Rightarrow> 'a option" where
  "spread d p = (case p of Absent \<Rightarrow> Some d | Undefined \<Rightarrow> None | Value v \<Rightarrow> Some v)"

definition invalidation_wait :: "InvalidationRaw \<Rightarrow> bool option" where
  "invalidation_wait raw = (case raw of InvObject w p \<Rightarrow> spread False w | _ \<Rightarrow> Some False)"

definition invalidation_paths :: "InvalidationRaw \<Rightarrow> InvalidationPaths option" where
  "invalidation_paths raw = (case raw of InvObject w p \<Rightarrow> spread All p | _ \<Rightarrow> Some All)"

text \<open>
  \<^verbatim>\<open>invalidation.paths === "all" ? ["/*"] : invalidation.paths\<close>; \<open>None\<close> is
  \<^verbatim>\<open>undefined\<close>.
\<close>

definition invalidationPaths :: "InvalidationRaw \<Rightarrow> string list option" where
  "invalidationPaths raw =
     (case invalidation_paths raw of
        Some All \<Rightarrow> Some [''/*'']
      | Some (Paths ps) \<Rightarrow> Some ps
      | None \<Rightarrow> None)"

text \<open>
  The \<^verbatim>\<open>forEach\<close> over the enumerated files. The hash object is the bytes it has
  been given so far: \<^verbatim>\<open>update\<close> appends, \<^verbatim>\<open>digest\<close> hashes the whole.
\<close>

fun hash_update_files :: "sys \<Rightarrow> string \<Rightarrow> string list \<Rightarrow> bytes \<Rightarrow> error + bytes" where
  "hash_update_files s outputPath [] hash = Inr hash"
| "hash_update_files s outputPath (filePath # rest) hash =
     (case readFile s (path_resolve s [outputPath, filePath]) of
        None \<Rightarrow> Inl ReadError
      | Some content \<Rightarrow> hash_update_files s outputPath rest (hash @ content))"

definition invalidation_glob :: "sys \<Rightarrow> string \<Rightarrow> string list" where
  "invalidation_glob s outputPath =
     globSync s [''**'']
       \<lparr>go_cwd = path_resolve s [outputPath], go_nodir = True, go_dot = True,
        go_follow = True, go_ignore = None\<rparr>"

text \<open>
  The result is \<open>None\<close> where the function returns without creating the resource,
  the arguments of the resource where it creates one, and an error where
  \<^verbatim>\<open>invalidationPaths.length\<close> or a read throws.
\<close>

definition createDistributionInvalidation ::
  "sys \<Rightarrow> string \<Rightarrow> InvalidationRaw \<Rightarrow> error + InvalidationRequest option" where
  "createDistributionInvalidation s outputPath invalidationRaw =
     (if invalidationRaw = InvFalse then Inr None
      else (case invalidationPaths invalidationRaw of
              None \<Rightarrow> Inl TypeError
            | Some paths \<Rightarrow>
                if length paths = 0 then Inr None
                else (case hash_update_files s outputPath (invalidation_glob s outputPath) [] of
                        Inl e \<Rightarrow> Inl e
                      | Inr hash \<Rightarrow>
                          Inr (Some \<lparr>ir_paths = paths, ir_version = md5_hex hash,
                                     ir_wait = invalidation_wait invalidationRaw\<rparr>))))"

subsection \<open>Which rule governs a file\<close>

text \<open>A rule matches a file when its glob call returns the file.\<close>

definition matches :: "sys \<Rightarrow> string \<Rightarrow> string \<Rightarrow> FileOptions \<Rightarrow> bool" where
  "matches s outputPath file fileOption = (file \<in> set (rule_glob s outputPath fileOption))"

text \<open>
  The files each iteration of the loop selects, paired with the rule of that
  iteration: what the loop does when no read fails.
\<close>

fun assigned ::
  "sys \<Rightarrow> string \<Rightarrow> FileOptions list \<Rightarrow> string list \<Rightarrow> (string \<times> FileOptions) list" where
  "assigned s outputPath [] filesUploaded = []"
| "assigned s outputPath (fileOption # rest) filesUploaded =
     (let files = filter (\<lambda>file. file \<notin> set filesUploaded)
                    (rule_glob s outputPath fileOption) in
      map (\<lambda>file. (file, fileOption)) files
        @ assigned s outputPath rest (filesUploaded @ files))"

subsection \<open>Example hosts\<close>

text \<open>
  Hosts used for the concrete instances below. A host's glob is given by a table: for
  each pattern (and the value of \<^verbatim>\<open>follow\<close>) the paths it matches, in the order this host
  returns them (glob's order is the directory order of the file system). Results of
  several patterns are merged without repetition, and the matches of the
  \<^verbatim>\<open>ignore\<close> patterns are removed.
\<close>

definition table_glob ::
  "string \<Rightarrow> (bool \<Rightarrow> string \<Rightarrow> string list) \<Rightarrow> string list \<Rightarrow> GlobOptions \<Rightarrow> string list" where
  "table_glob cwd table patterns options =
     (if go_cwd options = cwd then
        filter
          (\<lambda>file. file \<notin> set (concat (map (table (go_follow options))
                                  (case go_ignore options of None \<Rightarrow> [] | Some ps \<Rightarrow> ps))))
          (remdups (concat (map (table (go_follow options)) patterns)))
      else [])"

definition resolve_from :: "string \<Rightarrow> string list \<Rightarrow> string" where
  "resolve_from cwd parts =
     foldl (\<lambda>a p. case p of [] \<Rightarrow> a
                     | c # cs \<Rightarrow> if c = CHR ''/'' then p else a @ ''/'' @ p)
       cwd parts"

text \<open>
  The site: the working directory is \<^verbatim>\<open>/site\<close> and the build output \<^verbatim>\<open>dist\<close> holds
  four regular files, one of them under a hidden directory.
\<close>

definition site_contents :: "(string \<times> bytes) list" where
  "site_contents =
     [(''/site/dist/index.html'', [0x3c, 0x70, 0x3e]),
      (''/site/dist/data.bin'', [0x00, 0xff]),
      (''/site/dist/app.js'', [0x31, 0x3b]),
      (''/site/dist/.well-known/site-association-json'', [0x7b, 0x7d])]"

definition site_pattern :: "string \<Rightarrow> string list" where
  "site_pattern pattern =
     (if pattern = ''**'' then
        [''index.html'', ''data.bin'', ''app.js'', ''.well-known/site-association-json'']
      else if pattern = ''**/*.js'' then [''app.js'']
      else if pattern = ''**/*.html'' then [''index.html'']
      else if pattern = ''**/*.bin'' then [''data.bin'']
      else if pattern = ''*.*'' then [''index.html'', ''data.bin'', ''app.js'']
      else [])"

definition site_glob :: "string list \<Rightarrow> GlobOptions \<Rightarrow> string list" where
  "site_glob patterns options =
     table_glob ''/site/dist'' (\<lambda>follow. site_pattern) patterns options"

definition site_resolve :: "string list \<Rightarrow> string" where
  "site_resolve parts = resolve_from ''/site'' parts"

definition site_join :: "string list \<Rightarrow> string" where
  "site_join parts = (case parts of [] \<Rightarrow> ''.'' | p # ps \<Rightarrow> foldl (\<lambda>a q. a @ ''/'' @ q) p ps)"

text \<open>The SHA-256 digests of the four files, as \<^verbatim>\<open>sha256sum\<close> prints them.\<close>

definition site_sha256 :: "bytes \<Rightarrow> string" where
  "site_sha256 content =
     (case map_of
        [([0x3c, 0x70, 0x3e],
          ''33f2799467177287a29260780a107ac98ea63dd6165f67fcc0d74767d0a82090''),
         ([0x31, 0x3b],
          ''0889a34434e586e918436027c4e8b4c3380f84643731bdeb57024adb8745cf53''),
         ([0x00, 0xff],
          ''06eb7d6a69ee19e5fbdf749018d3d2abfa04bcbd1365db312eb86dc7169389b8''),
         ([0x7b, 0x7d],
          ''44136fa355b3678a1146ad16f7e8649e94fb4fc21fe77e8310c060f61caaff8a'')]
        content of
        Some digest \<Rightarrow> digest
      | None \<Rightarrow> [])"

definition site :: sys where
  "site =
     \<lparr>globSync = site_glob, readFile = map_of site_contents,
      existsSync = (\<lambda>p. p = ''dist'' \<or> p = ''.''),
      path_resolve = site_resolve, path_join = site_join, sha256_hex = site_sha256,
      execSync = (\<lambda>command cwd. True), env_SKIP = False, dev = False,
      cli_paths_platform = ''/opt/sst/platform''\<rparr>"

text \<open>The same tree on a host whose glob returns the paths in the opposite order.\<close>

definition site_reversed :: sys where
  "site_reversed = site\<lparr>globSync := (\<lambda>patterns options. rev (site_glob patterns options))\<rparr>"

text \<open>The same host under \<^verbatim>\<open>sst dev\<close>.\<close>

definition site_dev :: sys where
  "site_dev = site\<lparr>dev := True\<rparr>"

text \<open>The same host with one file that cannot be read.\<close>

definition site_unreadable :: sys where
  "site_unreadable = site\<lparr>readFile := (map_of site_contents)(''/site/dist/data.bin'' := None)\<rparr>"

text \<open>
  A copy of the tree, byte for byte, on another host: the working directory is
  \<^verbatim>\<open>/srv/www\<close> and the build output is \<^verbatim>\<open>public\<close>.
\<close>

definition mirror_contents :: "(string \<times> bytes) list" where
  "mirror_contents =
     [(''/srv/www/public/index.html'', [0x3c, 0x70, 0x3e]),
      (''/srv/www/public/data.bin'', [0x00, 0xff]),
      (''/srv/www/public/app.js'', [0x31, 0x3b]),
      (''/srv/www/public/.well-known/site-association-json'', [0x7b, 0x7d])]"

definition site_mirror :: sys where
  "site_mirror =
     site\<lparr>globSync := table_glob ''/srv/www/public'' (\<lambda>follow. site_pattern),
          readFile := map_of mirror_contents,
          existsSync := (\<lambda>p. p = ''public'' \<or> p = ''.''),
          path_resolve := resolve_from ''/srv/www''\<rparr>"



text \<open>What \<^verbatim>\<open>uploadAssets\<close> gives for the example site with no \<^verbatim>\<open>assets\<close> argument.\<close>

definition site_plan :: "BucketFile list" where
  "site_plan =
     [\<lparr>bf_source = ''/site/dist/app.js'', bf_key = ''app.js'',
       bf_hash = ''0889a34434e586e918436027c4e8b4c3380f84643731bdeb57024adb8745cf53'',
       bf_cacheControl = Some ''max-age=31536000,public,immutable'',
       bf_contentType = ''text/javascript;charset=UTF-8''\<rparr>,
      \<lparr>bf_source = ''/site/dist/index.html'', bf_key = ''index.html'',
       bf_hash = ''33f2799467177287a29260780a107ac98ea63dd6165f67fcc0d74767d0a82090'',
       bf_cacheControl = Some ''max-age=0,no-cache,no-store,must-revalidate'',
       bf_contentType = ''text/html;charset=UTF-8''\<rparr>,
      \<lparr>bf_source = ''/site/dist/data.bin'', bf_key = ''data.bin'',
       bf_hash = ''06eb7d6a69ee19e5fbdf749018d3d2abfa04bcbd1365db312eb86dc7169389b8'',
       bf_cacheControl = Some ''max-age=0,no-cache,no-store,must-revalidate'',
       bf_contentType = ''application/octet-stream''\<rparr>,
      \<lparr>bf_source = ''/site/dist/.well-known/site-association-json'',
       bf_key = ''.well-known/site-association-json'',
       bf_hash = ''44136fa355b3678a1146ad16f7e8649e94fb4fc21fe77e8310c060f61caaff8a'',
       bf_cacheControl = Some ''max-age=0,no-cache,no-store,must-revalidate'',
       bf_contentType = ''application/json;charset=UTF-8''\<rparr>]"

text \<open>A user rule for \<^verbatim>\<open>.bin\<close> files with a content type and no cacheControl, and the plan with it.\<close>

definition site_bin_rule :: FileOptions where
  "site_bin_rule =
     \<lparr>fo_files = [''**/*.bin''], fo_ignore = None, fo_cacheControl = None,
      fo_contentType = Some ''application/x-binary''\<rparr>"

definition site_bin_assets :: AssetsArgs where
  "site_bin_assets = \<lparr>as_textEncoding = None, as_fileOptions = Some [site_bin_rule]\<rparr>"

definition site_bin_plan :: "BucketFile list" where
  "site_bin_plan =
     [\<lparr>bf_source = ''/site/dist/data.bin'', bf_key = ''data.bin'',
       bf_hash = ''06eb7d6a69ee19e5fbdf749018d3d2abfa04bcbd1365db312eb86dc7169389b8'',
       bf_cacheControl = None,
       bf_contentType = ''application/octet-stream''\<rparr>,
      \<lparr>bf_source = ''/site/dist/app.js'', bf_key = ''app.js'',
       bf_hash = ''0889a34434e586e918436027c4e8b4c3380f84643731bdeb57024adb8745cf53'',
       bf_cacheControl = Some ''max-age=31536000,public,immutable'',
       bf_contentType = ''text/javascript;charset=UTF-8''\<rparr>,
      \<lparr>bf_source = ''/site/dist/index.html'', bf_key = ''index.html'',
       bf_hash = ''33f2799467177287a29260780a107ac98ea63dd6165f67fcc0d74767d0a82090'',
       bf_cacheControl = Some ''max-age=0,no-cache,no-store,must-revalidate'',
       bf_contentType = ''text/html;charset=UTF-8''\<rparr>,
      \<lparr>bf_source = ''/site/dist/.well-known/site-association-json'',
       bf_key = ''.well-known/site-association-json'',
       bf_hash = ''44136fa355b3678a1146ad16f7e8649e94fb4fc21fe77e8310c060f61caaff8a'',
       bf_cacheControl = Some ''max-age=0,no-cache,no-store,must-revalidate'',
       bf_contentType = ''application/json;charset=UTF-8''\<rparr>]"

section \<open>Content types\<close>

lemma getContentType_known:
  assumes "map_of extensions (file_ext filename) = Some d"
  shows "getContentType filename enc =
           (if ed_isText d \<and> enc \<noteq> ''none'' then ed_mime d @ '';charset='' @ enc
            else ed_mime d)"
  using assms by (simp add: getContentType_def)

text \<open>
  C7 (unknown-extension fallback). For every file name whose extension is not a key of
  the extension table, \<open>getContentType\<close> returns exactly
  \<open>application/octet-stream\<close>, with no charset suffix, whatever the text encoding.
  The function is total: there is no error result.
\<close>

theorem getContentType_unknown_extension:
  assumes "map_of extensions (file_ext filename) = None"
  shows "getContentType filename textEncoding = ''application/octet-stream''"
  using assms by (simp add: getContentType_def)

theorem getContentType_unknown_extension_witness:
  "map_of extensions (file_ext ''assets/data.bin'') = None
   \<and> getContentType ''assets/data.bin'' ''utf-8'' = ''application/octet-stream''
   \<and> getContentType ''assets/data.bin'' ''none'' = ''application/octet-stream''"
proof -
  have h: "map_of extensions (file_ext ''assets/data.bin'') = None"
    by code_simp
  from getContentType_unknown_extension [OF h] h show ?thesis by simp
qed

section \<open>The upload loop\<close>

lemma promise_all_Inr: "promise_all ps = Inr vs \<Longrightarrow> ps = map Inr vs"
proof (induction ps arbitrary: vs)
  case Nil
  then show ?case by simp
next
  case (Cons p ps)
  then show ?case
    by (cases p) (auto split: sum.splits)
qed

lemma promise_all_map_Inr: "promise_all (map Inr vs) = Inr vs"
  by (induction vs) auto


lemma promise_all_map:
  "promise_all (map f xs) = Inr vs \<Longrightarrow> list_all2 (\<lambda>x v. f x = Inr v) xs vs"
proof (induction xs arbitrary: vs)
  case Nil
  then show ?case by simp
next
  case (Cons x xs)
  then show ?case
    by (cases "f x") (auto split: sum.splits)
qed

lemma promise_all_total:
  "\<forall>x\<in>set xs. \<exists>v. f x = Inr v \<Longrightarrow> \<exists>vs. promise_all (map f xs) = Inr vs"
proof (induction xs)
  case Nil
  then show ?case by simp
next
  case (Cons x xs)
  then obtain v vs where "f x = Inr v" "promise_all (map f xs) = Inr vs"
    by auto
  then show ?case by simp
qed

lemma upload_loop_assigned:
  "upload_loop s out rs acc up = Inr plan \<Longrightarrow>
     \<exists>new. plan = acc @ new
       \<and> list_all2 (\<lambda>p b. upload_file s out (snd p) (fst p) = Inr b) (assigned s out rs up) new"
proof (induction rs arbitrary: acc up)
  case Nil
  then show ?case by simp
next
  case (Cons fo rest)
  let ?files = "filter (\<lambda>file. file \<notin> set up) (rule_glob s out fo)"
  from Cons.prems obtain uploaded where
    pa: "promise_all (map (upload_file s out fo) ?files) = Inr uploaded" and
    rec: "upload_loop s out rest (acc @ uploaded) (up @ ?files) = Inr plan"
    by (auto simp: Let_def split: sum.splits)
  from Cons.IH [OF rec] obtain new where
    new: "plan = (acc @ uploaded) @ new"
      "list_all2 (\<lambda>p b. upload_file s out (snd p) (fst p) = Inr b)
         (assigned s out rest (up @ ?files)) new"
    by blast
  have "list_all2 (\<lambda>p b. upload_file s out (snd p) (fst p) = Inr b)
          (map (\<lambda>file. (file, fo)) ?files) uploaded"
    using promise_all_map [OF pa] by (simp add: list_all2_map1)
  with new show ?case
    by (auto simp: Let_def intro!: list_all2_appendI)
qed

lemma assigned_not_uploaded:
  "(file, fo) \<in> set (assigned s out rs up) \<Longrightarrow> file \<notin> set up"
proof (induction rs arbitrary: up)
  case Nil
  then show ?case by simp
next
  case (Cons r rest)
  let ?files = "filter (\<lambda>file. file \<notin> set up) (rule_glob s out r)"
  from Cons.prems consider "file \<in> set ?files"
    | "(file, fo) \<in> set (assigned s out rest (up @ ?files))"
    by (auto simp: Let_def)
  then show ?case
  proof cases
    case 1
    then show ?thesis by simp
  next
    case 2
    from Cons.IH [OF this] show ?thesis by simp
  qed
qed

lemma assigned_iff:
  "(file, fo) \<in> set (assigned s out rs up) \<longleftrightarrow>
     file \<notin> set up \<and> find (matches s out file) rs = Some fo"
proof (induction rs arbitrary: up)
  case Nil
  then show ?case by simp
next
  case (Cons r rest)
  show ?case
    using Cons.IH [of "up @ filter (\<lambda>file. file \<notin> set up) (rule_glob s out r)"]
    by (auto simp: Let_def matches_def)
qed

lemma assigned_distinct:
  "\<forall>r\<in>set rs. distinct (rule_glob s out r) \<Longrightarrow> distinct (map fst (assigned s out rs up))"
proof (induction rs arbitrary: up)
  case Nil
  then show ?case by simp
next
  case (Cons r rest)
  then show ?case
    by (auto simp: Let_def comp_def dest: assigned_not_uploaded)
qed

lemma upload_file_Inr:
  "upload_file s out fo file = Inr b \<Longrightarrow>
     bf_key b = file \<and> bf_cacheControl b = fo_cacheControl fo
     \<and> bf_contentType b = getContentType file ''UTF-8''
     \<and> bf_source b = path_resolve s [out, file]
     \<and> (\<exists>content. readFile s (path_resolve s [out, file]) = Some content
           \<and> bf_hash b = sha256_hex s content)"
  by (auto simp: upload_file_def Let_def split: option.splits)

lemma upload_file_total:
  "readFile s (path_resolve s [out, file]) \<noteq> None \<Longrightarrow> \<exists>b. upload_file s out fo file = Inr b"
  by (auto simp: upload_file_def Let_def split: option.splits)

lemma upload_loop_total:
  "\<forall>(file, fo)\<in>set (assigned s out rs up). readFile s (path_resolve s [out, file]) \<noteq> None
     \<Longrightarrow> \<exists>plan. upload_loop s out rs acc up = Inr plan"
proof (induction rs arbitrary: acc up)
  case Nil
  then show ?case by simp
next
  case (Cons fo rest)
  let ?files = "filter (\<lambda>file. file \<notin> set up) (rule_glob s out fo)"
  have "\<forall>file\<in>set ?files. \<exists>b. upload_file s out fo file = Inr b"
    using Cons.prems by (auto simp: Let_def intro!: upload_file_total)
  from promise_all_total [OF this] obtain uploaded where
    pa: "promise_all (map (upload_file s out fo) ?files) = Inr uploaded" by blast
  have "\<forall>(file, fo)\<in>set (assigned s out rest (up @ ?files)).
          readFile s (path_resolve s [out, file]) \<noteq> None"
    using Cons.prems by (auto simp: Let_def)
  from Cons.IH [OF this] obtain plan where
    "upload_loop s out rest (acc @ uploaded) (up @ ?files) = Inr plan" by blast
  with pa show ?case by (simp add: Let_def)
qed

lemma find_Some_split:
  "find P xs = Some x \<longleftrightarrow> (\<exists>pre post. xs = pre @ x # post \<and> P x \<and> (\<forall>y\<in>set pre. \<not> P y))"
proof (induction xs)
  case Nil
  then show ?case by simp
next
  case (Cons a xs)
  show ?case
  proof (cases "P a")
    case True
    have "(\<exists>pre post. a # xs = pre @ x # post \<and> P x \<and> (\<forall>y\<in>set pre. \<not> P y)) \<longleftrightarrow> a = x"
    proof
      assume "\<exists>pre post. a # xs = pre @ x # post \<and> P x \<and> (\<forall>y\<in>set pre. \<not> P y)"
      then obtain pre post where *: "a # xs = pre @ x # post" "\<forall>y\<in>set pre. \<not> P y"
        by blast
      with True show "a = x" by (cases pre) auto
    next
      assume "a = x"
      with True have "a # xs = [] @ x # xs \<and> P x \<and> (\<forall>y\<in>set []. \<not> P y)" by simp
      then show "\<exists>pre post. a # xs = pre @ x # post \<and> P x \<and> (\<forall>y\<in>set pre. \<not> P y)"
        by blast
    qed
    with True show ?thesis by auto
  next
    case False
    have "(\<exists>pre post. a # xs = pre @ x # post \<and> P x \<and> (\<forall>y\<in>set pre. \<not> P y))
          \<longleftrightarrow> (\<exists>pre post. xs = pre @ x # post \<and> P x \<and> (\<forall>y\<in>set pre. \<not> P y))"
    proof
      assume "\<exists>pre post. a # xs = pre @ x # post \<and> P x \<and> (\<forall>y\<in>set pre. \<not> P y)"
      then obtain pre post where *: "a # xs = pre @ x # post" "P x" "\<forall>y\<in>set pre. \<not> P y"
        by blast
      with False obtain pre' where "pre = a # pre'" by (cases pre) auto
      with * have "xs = pre' @ x # post \<and> P x \<and> (\<forall>y\<in>set pre'. \<not> P y)" by simp
      then show "\<exists>pre post. xs = pre @ x # post \<and> P x \<and> (\<forall>y\<in>set pre. \<not> P y)" by blast
    next
      assume "\<exists>pre post. xs = pre @ x # post \<and> P x \<and> (\<forall>y\<in>set pre. \<not> P y)"
      then obtain pre post where "xs = pre @ x # post" "P x" "\<forall>y\<in>set pre. \<not> P y" by blast
      with False have "a # xs = (a # pre) @ x # post \<and> P x \<and> (\<forall>y\<in>set (a # pre). \<not> P y)"
        by simp
      then show "\<exists>pre post. a # xs = pre @ x # post \<and> P x \<and> (\<forall>y\<in>set pre. \<not> P y)" by blast
    qed
    with False Cons.IH show ?thesis by simp
  qed
qed

lemma list_all2_map_eq:
  "list_all2 (\<lambda>x y. f x = g y) xs ys \<Longrightarrow> map f xs = map g ys"
  by (induction rule: list_all2_induct) auto

lemma list_all2_right:
  "list_all2 R xs ys \<Longrightarrow> y \<in> set ys \<Longrightarrow> \<exists>x\<in>set xs. R x y"
  by (induction rule: list_all2_induct) auto

lemma list_all2_left:
  "list_all2 R xs ys \<Longrightarrow> x \<in> set xs \<Longrightarrow> \<exists>y\<in>set ys. R x y"
  by (induction rule: list_all2_induct) auto

lemma uploadAssets_assigned:
  assumes "uploadAssets s out assets = Inr plan"
  shows "list_all2 (\<lambda>p b. upload_file s out (snd p) (fst p) = Inr b)
           (assigned s out (rev (fileOptions assets)) []) plan"
  using upload_loop_assigned [of s out "rev (fileOptions assets)" "[]" "[]" plan] assms
  by (simp add: uploadAssets_def)

lemma uploadAssets_keys:
  assumes "uploadAssets s out assets = Inr plan"
  shows "map bf_key plan = map fst (assigned s out (rev (fileOptions assets)) [])"
proof -
  have "list_all2 (\<lambda>p b. fst p = bf_key b) (assigned s out (rev (fileOptions assets)) []) plan"
    using uploadAssets_assigned [OF assms]
    by (rule list_all2_mono) (auto dest: upload_file_Inr)
  then show ?thesis by (simp add: list_all2_map_eq)
qed

lemma uploadAssets_record:
  assumes "uploadAssets s out assets = Inr plan" and "b \<in> set plan"
  shows "\<exists>fo. (bf_key b, fo) \<in> set (assigned s out (rev (fileOptions assets)) [])
              \<and> upload_file s out fo (bf_key b) = Inr b"
proof -
  from list_all2_right [OF uploadAssets_assigned [OF assms(1)] assms(2)]
  obtain p where p: "p \<in> set (assigned s out (rev (fileOptions assets)) [])"
    "upload_file s out (snd p) (fst p) = Inr b"
    by blast
  from upload_file_Inr [OF p(2)] have "bf_key b = fst p" by simp
  with p have "(bf_key b, snd p) \<in> set (assigned s out (rev (fileOptions assets)) [])
      \<and> upload_file s out (snd p) (bf_key b) = Inr b"
    by simp
  then show ?thesis by blast
qed

lemma uploadAssets_record_of:
  assumes "uploadAssets s out assets = Inr plan"
    and "(file, fo) \<in> set (assigned s out (rev (fileOptions assets)) [])"
  shows "\<exists>b\<in>set plan. upload_file s out fo file = Inr b"
  using list_all2_left [OF uploadAssets_assigned [OF assms(1)] assms(2)] by simp

text \<open>Declaration order: the governing rule is the last one declared that matches.\<close>

lemma assigned_last_declared:
  "(file, fo) \<in> set (assigned s out (rev rules) []) \<longleftrightarrow>
     (\<exists>earlier later. rules = earlier @ fo # later \<and> matches s out file fo
        \<and> (\<forall>r\<in>set later. \<not> matches s out file r))"
proof -
  have "(file, fo) \<in> set (assigned s out (rev rules) []) \<longleftrightarrow>
        (\<exists>pre post. rev rules = pre @ fo # post \<and> matches s out file fo
           \<and> (\<forall>r\<in>set pre. \<not> matches s out file r))"
    by (simp add: assigned_iff find_Some_split)
  also have "\<dots> \<longleftrightarrow> (\<exists>earlier later. rules = earlier @ fo # later \<and> matches s out file fo
        \<and> (\<forall>r\<in>set later. \<not> matches s out file r))"
  proof
    assume "\<exists>pre post. rev rules = pre @ fo # post \<and> matches s out file fo
           \<and> (\<forall>r\<in>set pre. \<not> matches s out file r)"
    then obtain pre post where *: "rev rules = pre @ fo # post" "matches s out file fo"
      "\<forall>r\<in>set pre. \<not> matches s out file r" by blast
    from *(1) have "rules = rev post @ fo # rev pre"
      by (metis rev_append rev.simps(2) rev_rev_ident append_assoc append_Cons append_Nil)
    with * show "\<exists>earlier later. rules = earlier @ fo # later \<and> matches s out file fo
        \<and> (\<forall>r\<in>set later. \<not> matches s out file r)"
      by (metis set_rev)
  next
    assume "\<exists>earlier later. rules = earlier @ fo # later \<and> matches s out file fo
        \<and> (\<forall>r\<in>set later. \<not> matches s out file r)"
    then obtain earlier later where *: "rules = earlier @ fo # later" "matches s out file fo"
      "\<forall>r\<in>set later. \<not> matches s out file r" by blast
    from *(1) have "rev rules = rev later @ fo # rev earlier" by simp
    with * show "\<exists>pre post. rev rules = pre @ fo # post \<and> matches s out file fo
           \<and> (\<forall>r\<in>set pre. \<not> matches s out file r)"
      by (metis set_rev)
  qed
  finally show ?thesis .
qed

section \<open>Rule precedence and coverage of the plan\<close>

lemma matched_file_assigned:
  assumes "r \<in> set rules" and "matches s out file r"
  shows "\<exists>fo. (file, fo) \<in> set (assigned s out (rev rules) [])"
proof -
  from assms have "find (matches s out file) (rev rules) \<noteq> None"
    by (auto simp: find_None_iff)
  then show ?thesis by (auto simp: assigned_iff)
qed

lemma plan_rule_precedence:
  assumes "uploadAssets s out assets = Inr plan" and "b \<in> set plan"
  shows "\<exists>earlier rule later. fileOptions assets = earlier @ rule # later
           \<and> matches s out (bf_key b) rule
           \<and> (\<forall>r\<in>set later. \<not> matches s out (bf_key b) r)
           \<and> bf_cacheControl b = fo_cacheControl rule"
proof -
  from uploadAssets_record [OF assms] obtain fo where
    fo: "(bf_key b, fo) \<in> set (assigned s out (rev (fileOptions assets)) [])"
      "upload_file s out fo (bf_key b) = Inr b"
    by blast
  from fo(1) obtain earlier later where
    "fileOptions assets = earlier @ fo # later" "matches s out (bf_key b) fo"
    "\<forall>r\<in>set later. \<not> matches s out (bf_key b) r"
    unfolding assigned_last_declared by blast
  moreover from upload_file_Inr [OF fo(2)] have "bf_cacheControl b = fo_cacheControl fo"
    by simp
  ultimately show ?thesis by blast
qed

lemma plan_record_of_last_match:
  assumes "uploadAssets s out assets = Inr plan"
    and "fileOptions assets = earlier @ rule # later"
    and "matches s out file rule"
    and "\<forall>r\<in>set later. \<not> matches s out file r"
  shows "(\<exists>b\<in>set plan. bf_key b = file)
         \<and> (\<forall>b\<in>set plan. bf_key b = file \<longrightarrow> bf_cacheControl b = fo_cacheControl rule)"
proof -
  have asg: "(file, rule) \<in> set (assigned s out (rev (fileOptions assets)) [])"
    unfolding assigned_last_declared using assms(2-4) by blast
  from uploadAssets_record_of [OF assms(1) asg] obtain b where
    b: "b \<in> set plan" "upload_file s out rule file = Inr b" by blast
  from upload_file_Inr [OF b(2)] b(1) have ex: "\<exists>b\<in>set plan. bf_key b = file"
    by auto
  have "bf_cacheControl b = fo_cacheControl rule" if "b \<in> set plan" "bf_key b = file" for b
  proof -
    from uploadAssets_record [OF assms(1) that(1)] that(2) obtain fo where
      fo: "(file, fo) \<in> set (assigned s out (rev (fileOptions assets)) [])"
        "upload_file s out fo file = Inr b"
      by auto
    from fo(1) asg have "fo = rule" by (simp add: assigned_iff)
    with upload_file_Inr [OF fo(2)] show ?thesis by simp
  qed
  with ex show ?thesis by blast
qed

lemma plan_reads_matched_files:
  assumes "uploadAssets s out assets = Inr plan"
    and "rule \<in> set (fileOptions assets)" and "matches s out file rule"
  shows "readFile s (path_resolve s [out, file]) \<noteq> None \<and> (\<exists>b\<in>set plan. bf_key b = file)"
proof -
  from matched_file_assigned [OF assms(2,3)] obtain fo where
    "(file, fo) \<in> set (assigned s out (rev (fileOptions assets)) [])" by blast
  from uploadAssets_record_of [OF assms(1) this] obtain b where
    b: "b \<in> set plan" "upload_file s out fo file = Inr b" by blast
  from upload_file_Inr [OF b(2)] b(1) show ?thesis by auto
qed

text \<open>A plan is produced when every file matched by a rule can be read.\<close>

lemma uploadAssets_total:
  assumes "\<forall>rule\<in>set (fileOptions assets). \<forall>f\<in>set (rule_glob s out rule).
             readFile s (path_resolve s [out, f]) \<noteq> None"
  shows "\<exists>plan. uploadAssets s out assets = Inr plan"
proof -
  have "readFile s (path_resolve s [out, fst p]) \<noteq> None"
    if "p \<in> set (assigned s out (rev (fileOptions assets)) [])" for p
  proof -
    from that have "(fst p, snd p) \<in> set (assigned s out (rev (fileOptions assets)) [])"
      by simp
    then obtain earlier later where
      "fileOptions assets = earlier @ snd p # later" "matches s out (fst p) (snd p)"
      unfolding assigned_last_declared by blast
    then have "snd p \<in> set (fileOptions assets)" "fst p \<in> set (rule_glob s out (snd p))"
      by (simp_all add: matches_def)
    with assms show ?thesis by blast
  qed
  then have "\<forall>(f, fo)\<in>set (assigned s out (rev (fileOptions assets)) []).
          readFile s (path_resolve s [out, f]) \<noteq> None"
    by auto
  from upload_loop_total [OF this] show ?thesis
    by (simp add: uploadAssets_def)
qed

lemma catch_all_rule:
  "\<lparr>fo_files = [''**''], fo_ignore = None,
    fo_cacheControl = Some ''max-age=0,no-cache,no-store,must-revalidate'',
    fo_contentType = None\<rparr> \<in> set (fileOptions assets)"
  by (simp add: fileOptions_def)

lemma catch_all_matches:
  assumes "file \<in> set (globSync s [''**'']
             \<lparr>go_cwd = path_resolve s [out], go_nodir = True, go_dot = True,
              go_follow = False, go_ignore = None\<rparr>)"
  shows "matches s out file
           \<lparr>fo_files = [''**''], fo_ignore = None,
            fo_cacheControl = Some ''max-age=0,no-cache,no-store,must-revalidate'',
            fo_contentType = None\<rparr>"
  using assms by (simp add: matches_def rule_glob_def)

lemma count_distinct:
  "distinct xs \<Longrightarrow> x \<in> set xs \<Longrightarrow> length (filter (\<lambda>k. k = x) xs) = 1"
  by (induction xs) (auto simp: filter_empty_conv)

lemma plan_keys_distinct:
  assumes "uploadAssets s out assets = Inr plan"
    and "\<forall>fo\<in>set (fileOptions assets). distinct (rule_glob s out fo)"
  shows "distinct (map bf_key plan)"
  using assms assigned_distinct [of "rev (fileOptions assets)" s out "[]"]
  by (simp add: uploadAssets_keys)

lemma plan_key_count:
  assumes "uploadAssets s out assets = Inr plan"
    and "\<forall>fo\<in>set (fileOptions assets). distinct (rule_glob s out fo)"
    and "\<exists>b\<in>set plan. bf_key b = file"
  shows "length (filter (\<lambda>b. bf_key b = file) plan) = 1"
proof -
  have "length (filter (\<lambda>b. bf_key b = file) plan)
        = length (filter (\<lambda>k. k = file) (map bf_key plan))"
    by (simp add: filter_map comp_def)
  also have "\<dots> = 1"
    using plan_keys_distinct [OF assms(1,2)] assms(3) by (intro count_distinct) auto
  finally show ?thesis .
qed

text \<open>
  C4 (coverage). When \<open>uploadAssets\<close> produces a plan and each glob call returns
  its matches without repetition, no key occurs twice in the plan, and every file that
  the catch-all pattern \<^verbatim>\<open>**\<close> enumerates (directories excluded, dot files included)
  is the key of exactly one record.
\<close>

theorem plan_covers_each_file_once:
  assumes "uploadAssets s outputPath assets = Inr plan"
    and "\<forall>fileOption\<in>set (fileOptions assets). distinct (rule_glob s outputPath fileOption)"
    and "file \<in> set (globSync s [''**'']
           \<lparr>go_cwd = path_resolve s [outputPath], go_nodir = True, go_dot = True,
            go_follow = False, go_ignore = None\<rparr>)"
  shows "distinct (map bf_key plan) \<and> length (filter (\<lambda>b. bf_key b = file) plan) = 1"
proof -
  from plan_reads_matched_files [OF assms(1) catch_all_rule catch_all_matches [OF assms(3)]]
  have "\<exists>b\<in>set plan. bf_key b = file" by simp
  with plan_key_count [OF assms(1,2)] plan_keys_distinct [OF assms(1,2)]
  show ?thesis by simp
qed

text \<open>
  C9 (a user rule without cacheControl). When a user rule that sets no
  \<^verbatim>\<open>cacheControl\<close> matches a file and no rule declared after it does, the file has a
  record and every record of the file carries no cacheControl, although the built-in
  catch-all rule matches the file as well.
\<close>

theorem user_rule_without_cacheControl_shadows_builtins:
  assumes "uploadAssets s outputPath (Some assets) = Inr plan"
    and "as_fileOptions assets = Some (earlier @ rule # later)"
    and "fo_cacheControl rule = None"
    and "matches s outputPath file rule"
    and "\<forall>r\<in>set later. \<not> matches s outputPath file r"
  shows "(\<exists>b\<in>set plan. bf_key b = file)
         \<and> (\<forall>b\<in>set plan. bf_key b = file \<longrightarrow> bf_cacheControl b = None)"
proof -
  have "fileOptions (Some assets) = (take 2 (fileOptions None) @ earlier) @ rule # later"
    using assms(2) by (simp add: fileOptions_def)
  from plan_record_of_last_match [OF assms(1) this assms(4,5)] assms(3)
  show ?thesis by simp
qed

section \<open>Failures of planning\<close>

lemma planAssets_missing_output:
  assumes "\<not> dev s"
    and "\<not> existsSync s (case buildOutput of Some b \<Rightarrow> b | None \<Rightarrow> sitePath)"
  shows "\<exists>e. planAssets s name sitePath buildCommand buildOutput assets = Inl e"
  using assms by (simp add: planAssets_def buildApp_def Let_def)

lemma uploadAssets_read_failure:
  assumes "rule \<in> set (fileOptions assets)" and "matches s out file rule"
    and "readFile s (path_resolve s [out, file]) = None"
  shows "\<exists>e. uploadAssets s out assets = Inl e"
proof (cases "uploadAssets s out assets")
  case (Inl e)
  then show ?thesis by blast
next
  case (Inr plan)
  from plan_reads_matched_files [OF Inr assms(1,2)] assms(3) show ?thesis by simp
qed

text \<open>
  C8 (fail-fast planning), as amended. Outside dev mode, planning fails with an error
  when the output path does not exist. In any mode, once \<open>buildApp\<close> has given an
  output path, planning fails with an error when the read of a file matched by some
  rule fails, and a plan that is produced has a record for every file the catch-all
  pattern enumerates: there is no partial plan.
\<close>

theorem planAssets_fail_fast:
  "(\<not> dev s \<longrightarrow> \<not> existsSync s (case buildOutput of Some b \<Rightarrow> b | None \<Rightarrow> sitePath)
      \<longrightarrow> (\<exists>e. planAssets s name sitePath buildCommand buildOutput assets = Inl e))
   \<and> (\<forall>outputPath rule file.
         buildApp s name sitePath buildCommand buildOutput = Inr outputPath
         \<longrightarrow> rule \<in> set (fileOptions assets) \<longrightarrow> matches s outputPath file rule
         \<longrightarrow> readFile s (path_resolve s [outputPath, file]) = None
         \<longrightarrow> (\<exists>e. planAssets s name sitePath buildCommand buildOutput assets = Inl e))
   \<and> (\<forall>outputPath plan.
         buildApp s name sitePath buildCommand buildOutput = Inr outputPath
         \<longrightarrow> planAssets s name sitePath buildCommand buildOutput assets = Inr plan
         \<longrightarrow> (\<forall>file\<in>set (globSync s [''**'']
                   \<lparr>go_cwd = path_resolve s [outputPath], go_nodir = True, go_dot = True,
                    go_follow = False, go_ignore = None\<rparr>).
                \<exists>b\<in>set plan. bf_key b = file))"
proof (intro conjI allI impI ballI)
  assume "\<not> dev s"
    and "\<not> existsSync s (case buildOutput of Some b \<Rightarrow> b | None \<Rightarrow> sitePath)"
  then show "\<exists>e. planAssets s name sitePath buildCommand buildOutput assets = Inl e"
    by (rule planAssets_missing_output)
next
  fix outputPath rule f
  assume "buildApp s name sitePath buildCommand buildOutput = Inr outputPath"
    and "rule \<in> set (fileOptions assets)" and "matches s outputPath f rule"
    and "readFile s (path_resolve s [outputPath, f]) = None"
  then show "\<exists>e. planAssets s name sitePath buildCommand buildOutput assets = Inl e"
    using uploadAssets_read_failure [of rule assets s outputPath f]
    by (simp add: planAssets_def)
next
  fix outputPath plan f
  assume b: "buildApp s name sitePath buildCommand buildOutput = Inr outputPath"
    and p: "planAssets s name sitePath buildCommand buildOutput assets = Inr plan"
    and f: "f \<in> set (globSync s [''**'']
                   \<lparr>go_cwd = path_resolve s [outputPath], go_nodir = True, go_dot = True,
                    go_follow = False, go_ignore = None\<rparr>)"
  from b p have "uploadAssets s outputPath assets = Inr plan"
    by (simp add: planAssets_def)
  from plan_reads_matched_files [OF this catch_all_rule catch_all_matches [OF f]]
  show "\<exists>b\<in>set plan. bf_key b = f" by simp
qed

section \<open>The invalidation request\<close>

lemma invalidationPaths_empty_iff:
  "invalidationPaths raw = Some [] \<longleftrightarrow> (\<exists>wait. raw = InvObject wait (Value (Paths [])))"
  by (cases raw)
     (auto simp: invalidationPaths_def invalidation_paths_def spread_def
           split: option.splits property.splits InvalidationPaths.splits)

lemma invalidationPaths_undefined_iff:
  "invalidationPaths raw = None \<longleftrightarrow> (\<exists>wait. raw = InvObject wait Undefined)"
  by (cases raw)
     (auto simp: invalidationPaths_def invalidation_paths_def spread_def
           split: option.splits property.splits InvalidationPaths.splits)

text \<open>The \<^verbatim>\<open>forEach\<close>: every file read in order, or the first failure.\<close>

lemma hash_update_files_reads:
  "map (\<lambda>f. readFile s (path_resolve s [out, f])) files = map Some contents
     \<Longrightarrow> hash_update_files s out files h = Inr (h @ concat contents)"
proof (induction files arbitrary: h contents)
  case Nil
  then show ?case by simp
next
  case (Cons f files)
  then obtain content rest where "contents = content # rest"
    by (cases contents) auto
  with Cons show ?case by auto
qed

lemma hash_update_files_total:
  "\<forall>f\<in>set files. readFile s (path_resolve s [out, f]) \<noteq> None
     \<Longrightarrow> \<exists>h'. hash_update_files s out files h = Inr h'"
  by (induction files arbitrary: h) auto

lemma hash_update_files_failure:
  "\<exists>f\<in>set files. readFile s (path_resolve s [out, f]) = None
     \<Longrightarrow> hash_update_files s out files h = Inl ReadError"
  by (induction files arbitrary: h) (auto split: option.splits)

lemma hash_update_files_stream:
  "hash_update_files s out files h = Inr h' \<Longrightarrow>
     \<exists>contents. map (\<lambda>f. readFile s (path_resolve s [out, f])) files = map Some contents
        \<and> h' = h @ concat contents"
proof (induction files arbitrary: h)
  case Nil
  then show ?case by simp
next
  case (Cons f files)
  from Cons.prems obtain content where
    c: "readFile s (path_resolve s [out, f]) = Some content"
    and r: "hash_update_files s out files (h @ content) = Inr h'"
    by (auto split: option.splits)
  from Cons.IH [OF r] obtain contents where
    "map (\<lambda>f. readFile s (path_resolve s [out, f])) files = map Some contents"
    "h' = (h @ content) @ concat contents"
    by blast
  with c have "map (\<lambda>f. readFile s (path_resolve s [out, f])) (f # files)
                 = map Some (content # contents)
               \<and> h' = h @ concat (content # contents)"
    by simp
  then show ?case by blast
qed

text \<open>
  What the function gives for a configuration that is not \<^verbatim>\<open>false\<close> and whose paths
  are a non-empty list: the request with the MD5 of the files' bytes, in the order
  glob returns the files, when every file is read; the read error when one is not.
\<close>

lemma createDistributionInvalidation_request:
  assumes "raw \<noteq> InvFalse" and "invalidationPaths raw = Some paths" and "paths \<noteq> []"
    and "map (\<lambda>f. readFile s (path_resolve s [out, f])) (invalidation_glob s out)
           = map Some contents"
  shows "createDistributionInvalidation s out raw =
           Inr (Some \<lparr>ir_paths = paths, ir_version = md5_hex (concat contents),
                      ir_wait = invalidation_wait raw\<rparr>)"
  using assms(1-3) hash_update_files_reads [OF assms(4), of "[]"]
  by (simp add: createDistributionInvalidation_def)

lemma createDistributionInvalidation_read_failure:
  assumes "raw \<noteq> InvFalse" and "invalidationPaths raw = Some paths" and "paths \<noteq> []"
    and "\<exists>f\<in>set (invalidation_glob s out). readFile s (path_resolve s [out, f]) = None"
  shows "createDistributionInvalidation s out raw = Inl ReadError"
  using assms(1-3) hash_update_files_failure [OF assms(4), of "[]"]
  by (simp add: createDistributionInvalidation_def)

lemma createDistributionInvalidation_paths_undefined:
  "createDistributionInvalidation s out (InvObject wait Undefined) = Inl TypeError"
  by (simp add: createDistributionInvalidation_def invalidationPaths_def
      invalidation_paths_def spread_def)

lemma createDistributionInvalidation_Some:
  assumes "createDistributionInvalidation s out raw = Inr (Some request)"
  shows "raw \<noteq> InvFalse
         \<and> (\<exists>paths h. invalidationPaths raw = Some paths \<and> paths \<noteq> []
                \<and> hash_update_files s out (invalidation_glob s out) [] = Inr h
                \<and> request = \<lparr>ir_paths = paths, ir_version = md5_hex h,
                              ir_wait = invalidation_wait raw\<rparr>)"
  using assms
  by (auto simp: createDistributionInvalidation_def split: if_splits sum.splits option.splits)

lemma versionToken_is_md5_of_stream:
  assumes "createDistributionInvalidation s out raw = Inr (Some request)"
  shows "\<exists>contents.
           map (\<lambda>f. readFile s (path_resolve s [out, f])) (invalidation_glob s out)
             = map Some contents
           \<and> ir_version request = md5_hex (concat contents)"
proof -
  from createDistributionInvalidation_Some [OF assms] obtain h where
    h: "hash_update_files s out (invalidation_glob s out) [] = Inr h"
    and v: "ir_version request = md5_hex h"
    by auto
  from hash_update_files_stream [OF h] v show ?thesis by auto
qed

text \<open>
  C5 (when no invalidation is requested), as amended.
  \<open>createDistributionInvalidation\<close> returns without a request exactly when the
  configuration is \<^verbatim>\<open>false\<close> or its \<^verbatim>\<open>paths\<close> is the empty array. For every other
  configuration whose \<^verbatim>\<open>paths\<close> is omitted, \<^verbatim>\<open>"all"\<close> or a non-empty array (the omitted
  configuration included) it creates a request when every enumerated file can be read,
  and throws the read error when one cannot.
\<close>

theorem invalidation_request_iff:
  "(createDistributionInvalidation s outputPath raw = Inr None
      \<longleftrightarrow> raw = InvFalse \<or> (\<exists>wait. raw = InvObject wait (Value (Paths []))))
   \<and> (raw \<noteq> InvFalse \<longrightarrow> (\<forall>wait. raw \<noteq> InvObject wait (Value (Paths [])))
        \<longrightarrow> (\<forall>wait. raw \<noteq> InvObject wait Undefined)
        \<longrightarrow> ((\<forall>file\<in>set (invalidation_glob s outputPath).
                 readFile s (path_resolve s [outputPath, file]) \<noteq> None)
              \<longrightarrow> (\<exists>request. createDistributionInvalidation s outputPath raw
                               = Inr (Some request)))
            \<and> ((\<exists>file\<in>set (invalidation_glob s outputPath).
                 readFile s (path_resolve s [outputPath, file]) = None)
              \<longrightarrow> createDistributionInvalidation s outputPath raw = Inl ReadError))"
proof (intro conjI impI)
  show "createDistributionInvalidation s outputPath raw = Inr None
      \<longleftrightarrow> raw = InvFalse \<or> (\<exists>wait. raw = InvObject wait (Value (Paths [])))"
    unfolding invalidationPaths_empty_iff [symmetric]
    by (auto simp: createDistributionInvalidation_def split: sum.splits option.splits)
next
  assume raw: "raw \<noteq> InvFalse" "\<forall>wait. raw \<noteq> InvObject wait (Value (Paths []))"
    "\<forall>wait. raw \<noteq> InvObject wait Undefined"
  then obtain paths where paths: "invalidationPaths raw = Some paths" "paths \<noteq> []"
    using invalidationPaths_empty_iff [of raw] invalidationPaths_undefined_iff [of raw]
    by (cases "invalidationPaths raw") auto
  {
    assume "\<forall>file\<in>set (invalidation_glob s outputPath).
           readFile s (path_resolve s [outputPath, file]) \<noteq> None"
    from hash_update_files_total [OF this] obtain h where
      "hash_update_files s outputPath (invalidation_glob s outputPath) [] = Inr h" by blast
    with raw(1) paths
    show "\<exists>request. createDistributionInvalidation s outputPath raw = Inr (Some request)"
      by (simp add: createDistributionInvalidation_def)
  }
  {
    assume "\<exists>file\<in>set (invalidation_glob s outputPath).
                 readFile s (path_resolve s [outputPath, file]) = None"
    from createDistributionInvalidation_read_failure [OF raw(1) paths this]
    show "createDistributionInvalidation s outputPath raw = Inl ReadError" .
  }
qed

text \<open>
  C6 (normalisation and defaults). In the request that is created, \<^verbatim>\<open>paths\<close> is
  \<open>[''/*'']\<close> when the configured paths are \<^verbatim>\<open>"all"\<close> or omitted, and \<^verbatim>\<open>wait\<close> is
  false when the configured wait is omitted.
\<close>

theorem invalidation_request_defaults:
  assumes "createDistributionInvalidation s outputPath raw = Inr (Some request)"
  shows "((raw = InvUndefined \<or> (\<exists>wait. raw = InvObject wait Absent)
            \<or> (\<exists>wait. raw = InvObject wait (Value All)))
          \<longrightarrow> ir_paths request = [''/*''])
         \<and> ((raw = InvUndefined \<or> (\<exists>paths. raw = InvObject Absent paths))
          \<longrightarrow> ir_wait request = Some False)"
  using createDistributionInvalidation_Some [OF assms]
  by (auto simp: invalidationPaths_def invalidation_paths_def invalidation_wait_def spread_def)

text \<open>
  C2 (the version token), as amended. In two runs in which glob returns files with
  the same bytes in the same order (so for byte-identical trees enumerated in the same
  order), each run creates the request whose version token is the hex MD5 of those
  bytes, concatenated in the order glob returned the files: the same token in both.
  The function imposes no order of its own.
\<close>

theorem versionToken_same_enumeration:
  assumes "raw \<noteq> InvFalse" and "invalidationPaths raw = Some paths" and "paths \<noteq> []"
    and "map (\<lambda>file. readFile s1 (path_resolve s1 [outputPath1, file]))
           (invalidation_glob s1 outputPath1) = map Some contents"
    and "map (\<lambda>file. readFile s2 (path_resolve s2 [outputPath2, file]))
           (invalidation_glob s2 outputPath2) = map Some contents"
  shows "createDistributionInvalidation s1 outputPath1 raw =
           Inr (Some \<lparr>ir_paths = paths, ir_version = md5_hex (concat contents),
                      ir_wait = invalidation_wait raw\<rparr>)
         \<and> createDistributionInvalidation s2 outputPath2 raw =
           Inr (Some \<lparr>ir_paths = paths, ir_version = md5_hex (concat contents),
                      ir_wait = invalidation_wait raw\<rparr>)"
  using createDistributionInvalidation_request [OF assms(1-3) assms(4)]
    createDistributionInvalidation_request [OF assms(1-3) assms(5)]
  by simp




lemma uploadAssets_ignores_textEncoding:
  "uploadAssets s out (Some (assets\<lparr>as_textEncoding := encoding\<rparr>)) = uploadAssets s out (Some assets)"
  by (simp add: uploadAssets_def fileOptions_def)

lemma plan_contentType:
  assumes "uploadAssets s out assets = Inr plan" and "b \<in> set plan"
  shows "bf_contentType b = getContentType (bf_key b) ''UTF-8''"
proof -
  from uploadAssets_record [OF assms] obtain fo where
    "upload_file s out fo (bf_key b) = Inr b" by blast
  from upload_file_Inr [OF this] show ?thesis by simp
qed

section \<open>The example site, evaluated\<close>

lemma site_content_types:
  "getContentType ''app.js'' ''UTF-8'' = ''text/javascript;charset=UTF-8''"
  "getContentType ''index.html'' ''UTF-8'' = ''text/html;charset=UTF-8''"
  "getContentType ''data.bin'' ''UTF-8'' = ''application/octet-stream''"
  "getContentType ''.well-known/site-association-json'' ''UTF-8'' = ''application/json;charset=UTF-8''"
  by code_simp+

lemmas site_simps =
  site_def site_glob_def table_glob_def site_pattern_def site_resolve_def resolve_from_def site_contents_def
  site_sha256_def rule_glob_def upload_file_def fileOptions_def uploadAssets_def Let_def

lemma site_glob_distinct: "distinct (site_glob patterns options)"
  by (simp add: site_glob_def table_glob_def)

lemma site_rule_glob_distinct: "distinct (rule_glob site out fileOption)"
  by (simp add: rule_glob_def site_def site_glob_distinct)

lemma site_uploadAssets: "uploadAssets site ''dist'' None = Inr site_plan"
  by (simp add: site_simps site_plan_def site_content_types)

text \<open>A test vector of RFC 1321, and the digests of the example tree in both orders.\<close>

lemma md5_abc: "md5_hex [0x61, 0x62, 0x63] = ''900150983cd24fb0d6963f7d28e17f72''"
  by code_simp

lemma site_token:
  "md5_hex [0x3c, 0x70, 0x3e, 0x00, 0xff, 0x31, 0x3b, 0x7b, 0x7d]
   = ''a42c986cec934f3d3b9aaf419ca0e732''"
  by code_simp

lemma site_reversed_token:
  "md5_hex [0x7b, 0x7d, 0x31, 0x3b, 0x00, 0xff, 0x3c, 0x70, 0x3e]
   = ''3bfc86e91266eedfcc2473290466bc51''"
  by code_simp

lemmas site_invalidation_simps =
  createDistributionInvalidation_def invalidationPaths_def invalidation_paths_def
  invalidation_wait_def spread_def invalidation_glob_def site_def site_glob_def table_glob_def
  site_pattern_def site_resolve_def resolve_from_def site_contents_def

lemma site_invalidation:
  "createDistributionInvalidation site ''dist'' InvUndefined =
     Inr (Some \<lparr>ir_paths = [''/*''], ir_version = ''a42c986cec934f3d3b9aaf419ca0e732'',
                ir_wait = Some False\<rparr>)"
  by (simp add: site_invalidation_simps site_token)

lemma site_reads:
  "map (\<lambda>file. readFile site (path_resolve site [''dist'', file])) (invalidation_glob site ''dist'')
   = map Some [[0x3c, 0x70, 0x3e], [0x00, 0xff], [0x31, 0x3b], [0x7b, 0x7d]]"
  by (simp add: invalidation_glob_def site_def site_glob_def table_glob_def site_pattern_def
      site_resolve_def resolve_from_def site_contents_def)

lemma site_mirror_reads:
  "map (\<lambda>file. readFile site_mirror (path_resolve site_mirror [''public'', file]))
     (invalidation_glob site_mirror ''public'')
   = map Some [[0x3c, 0x70, 0x3e], [0x00, 0xff], [0x31, 0x3b], [0x7b, 0x7d]]"
  by (simp add: invalidation_glob_def site_mirror_def site_def table_glob_def site_pattern_def
      resolve_from_def mirror_contents_def)

lemma site_unreadable_reads:
  "\<exists>file\<in>set (invalidation_glob site_unreadable ''dist'').
     readFile site_unreadable (path_resolve site_unreadable [''dist'', file]) = None"
  by (simp add: invalidation_glob_def site_unreadable_def site_def site_glob_def table_glob_def
      site_pattern_def site_resolve_def resolve_from_def)

section \<open>Instances on the example site\<close>

theorem plan_covers_each_file_once_witness:
  "uploadAssets site ''dist'' None = Inr site_plan
   \<and> list_all (\<lambda>fileOption. distinct (rule_glob site ''dist'' fileOption)) (fileOptions None)
   \<and> ''.well-known/site-association-json'' \<in> set (globSync site [''**'']
         \<lparr>go_cwd = path_resolve site [''dist''], go_nodir = True, go_dot = True,
          go_follow = False, go_ignore = None\<rparr>)
   \<and> distinct (map bf_key site_plan)
   \<and> length (filter (\<lambda>b. bf_key b = ''.well-known/site-association-json'') site_plan) = 1"
proof -
  have d: "\<forall>fileOption\<in>set (fileOptions None). distinct (rule_glob site ''dist'' fileOption)"
    by (simp add: site_rule_glob_distinct)
  have g: "''.well-known/site-association-json'' \<in> set (globSync site [''**'']
         \<lparr>go_cwd = path_resolve site [''dist''], go_nodir = True, go_dot = True,
          go_follow = False, go_ignore = None\<rparr>)"
    by (simp add: site_def site_glob_def table_glob_def site_pattern_def site_resolve_def resolve_from_def)
  from plan_covers_each_file_once [OF site_uploadAssets d g] site_uploadAssets d g
  show ?thesis by (simp add: list_all_iff)
qed

lemma site_buildApp: "buildApp site name ''.'' command (Some ''dist'') = Inr ''dist''"
  by (cases command) (simp_all add: buildApp_def site_def)

lemma site_planAssets: "planAssets site name ''.'' command (Some ''dist'') None = Inr site_plan"
  by (simp add: planAssets_def site_buildApp site_uploadAssets)

theorem planAssets_fail_fast_witness:
  "\<not> dev site \<and> \<not> existsSync site ''out''
   \<and> planAssets site ''Web'' ''.'' None (Some ''out'') None
       = Inl (VisibleError (''No build output found at '' @ [CHR 0x22] @ ''/site/out'' @ [CHR 0x22]))
   \<and> buildApp site_unreadable ''Web'' ''.'' None (Some ''dist'') = Inr ''dist''
   \<and> readFile site_unreadable (path_resolve site_unreadable [''dist'', ''data.bin'']) = None
   \<and> planAssets site_unreadable ''Web'' ''.'' None (Some ''dist'') None = Inl ReadError
   \<and> planAssets site ''Web'' ''.'' None (Some ''dist'') None = Inr site_plan
   \<and> (\<exists>b\<in>set site_plan. bf_key b = ''data.bin'')"
proof -
  have a: "\<not> dev site \<and> \<not> existsSync site ''out''"
    by (simp add: site_def)
  have b: "planAssets site ''Web'' ''.'' None (Some ''out'') None
       = Inl (VisibleError (''No build output found at '' @ [CHR 0x22] @ ''/site/out'' @ [CHR 0x22]))"
    by (simp add: planAssets_def buildApp_def site_def site_resolve_def resolve_from_def)
  have c: "buildApp site_unreadable ''Web'' ''.'' None (Some ''dist'') = Inr ''dist''"
    by (simp add: buildApp_def site_unreadable_def site_def)
  have d: "readFile site_unreadable (path_resolve site_unreadable [''dist'', ''data.bin'']) = None"
    by (simp add: site_unreadable_def site_def site_resolve_def resolve_from_def)
  have e: "planAssets site_unreadable ''Web'' ''.'' None (Some ''dist'') None = Inl ReadError"
    by (simp add: planAssets_def c)
       (simp add: site_unreadable_def site_simps site_content_types)
  have f: "''data.bin'' \<in> set (globSync site [''**'']
                   \<lparr>go_cwd = path_resolve site [''dist''], go_nodir = True, go_dot = True,
                    go_follow = False, go_ignore = None\<rparr>)"
    by (simp add: site_def site_glob_def table_glob_def site_pattern_def site_resolve_def resolve_from_def)
  from planAssets_fail_fast [where s = site and buildOutput = "Some ''dist''"
      and sitePath = "''.''" and name = "''Web''" and buildCommand = None and assets = None]
    site_buildApp [of "''Web''" None] site_planAssets [of "''Web''" None] f
  have "\<exists>b\<in>set site_plan. bf_key b = ''data.bin''"
    by blast
  with a b c d e site_planAssets [of "''Web''" None] show ?thesis by simp
qed

text \<open>
  In dev mode \<open>buildApp\<close> returns the platform's empty-site directory without any
  check: with an output path that does not exist (and no empty-site directory either)
  planning ends without an error, in an empty plan.
\<close>

theorem planAssets_dev_missing_output:
  "dev site_dev \<and> \<not> existsSync site_dev ''out''
   \<and> \<not> existsSync site_dev
         (path_join site_dev [cli_paths_platform site_dev, ''functions'', ''empty-site''])
   \<and> buildApp site_dev ''Web'' ''.'' None (Some ''out'')
       = Inr ''/opt/sst/platform/functions/empty-site''
   \<and> planAssets site_dev ''Web'' ''.'' None (Some ''out'') None = Inr []"
  by (simp add: planAssets_def buildApp_def site_dev_def site_def site_join_def site_resolve_def resolve_from_def
      uploadAssets_def fileOptions_def rule_glob_def site_glob_def table_glob_def)

theorem invalidation_request_iff_witness:
  "list_all (\<lambda>file. readFile site (path_resolve site [''dist'', file]) \<noteq> None)
     (invalidation_glob site ''dist'')
   \<and> (\<exists>request. createDistributionInvalidation site ''dist'' InvUndefined = Inr (Some request))
   \<and> createDistributionInvalidation site ''dist'' (InvObject (Value True) Absent) \<noteq> Inr None
   \<and> createDistributionInvalidation site ''dist'' InvFalse = Inr None
   \<and> createDistributionInvalidation site ''dist'' (InvObject (Value True) (Value (Paths [])))
       = Inr None
   \<and> list_ex (\<lambda>file. readFile site_unreadable (path_resolve site_unreadable [''dist'', file])
                       = None)
        (invalidation_glob site_unreadable ''dist'')
   \<and> createDistributionInvalidation site_unreadable ''dist'' (InvObject (Value True) Absent)
       = Inl ReadError"
proof -
  have r: "\<forall>file\<in>set (invalidation_glob site ''dist'').
             readFile site (path_resolve site [''dist'', file]) \<noteq> None"
    by (simp add: invalidation_glob_def site_def site_glob_def table_glob_def site_pattern_def
        site_resolve_def resolve_from_def site_contents_def)
  note u = site_unreadable_reads
  from r u
    invalidation_request_iff [of site "''dist''" InvUndefined]
    invalidation_request_iff [of site "''dist''" "InvObject (Value True) Absent"]
    invalidation_request_iff [of site "''dist''" InvFalse]
    invalidation_request_iff [of site "''dist''" "InvObject (Value True) (Value (Paths []))"]
    invalidation_request_iff [of site_unreadable "''dist''" "InvObject (Value True) Absent"]
  show ?thesis by (simp add: list_all_iff list_ex_iff)
qed

text \<open>
  With the configuration omitted and a file that cannot be read, the function neither
  returns without a request nor creates one: the read throws.
\<close>

theorem invalidation_read_failure_throws:
  "InvUndefined \<noteq> InvFalse
   \<and> readFile site_unreadable (path_resolve site_unreadable [''dist'', ''data.bin'']) = None
   \<and> createDistributionInvalidation site_unreadable ''dist'' InvUndefined = Inl ReadError"
  by (simp add: createDistributionInvalidation_def invalidationPaths_def invalidation_paths_def
      invalidation_glob_def site_unreadable_def site_def site_glob_def table_glob_def
      site_pattern_def site_resolve_def resolve_from_def site_contents_def)

theorem invalidation_request_defaults_witness:
  "createDistributionInvalidation site ''dist'' InvUndefined =
     Inr (Some \<lparr>ir_paths = [''/*''], ir_version = ''a42c986cec934f3d3b9aaf419ca0e732'',
                ir_wait = Some False\<rparr>)
   \<and> ir_paths \<lparr>ir_paths = [''/*''], ir_version = ''a42c986cec934f3d3b9aaf419ca0e732'',
               ir_wait = Some False\<rparr> = [''/*'']
   \<and> ir_wait \<lparr>ir_paths = [''/*''], ir_version = ''a42c986cec934f3d3b9aaf419ca0e732'',
              ir_wait = Some False\<rparr> = Some False"
  using invalidation_request_defaults [OF site_invalidation] site_invalidation by simp

theorem versionToken_same_enumeration_witness:
  "InvUndefined \<noteq> InvFalse \<and> invalidationPaths InvUndefined = Some [''/*'']
   \<and> map (\<lambda>file. readFile site (path_resolve site [''dist'', file]))
        (invalidation_glob site ''dist'')
       = map Some [[0x3c, 0x70, 0x3e], [0x00, 0xff], [0x31, 0x3b], [0x7b, 0x7d]]
   \<and> map (\<lambda>file. readFile site_mirror (path_resolve site_mirror [''public'', file]))
        (invalidation_glob site_mirror ''public'')
       = map Some [[0x3c, 0x70, 0x3e], [0x00, 0xff], [0x31, 0x3b], [0x7b, 0x7d]]
   \<and> createDistributionInvalidation site ''dist'' InvUndefined =
       Inr (Some \<lparr>ir_paths = [''/*''], ir_version = ''a42c986cec934f3d3b9aaf419ca0e732'',
                  ir_wait = Some False\<rparr>)
   \<and> createDistributionInvalidation site_mirror ''public'' InvUndefined =
       Inr (Some \<lparr>ir_paths = [''/*''], ir_version = ''a42c986cec934f3d3b9aaf419ca0e732'',
                  ir_wait = Some False\<rparr>)"
proof -
  have e: "InvUndefined \<noteq> InvFalse" by simp
  have p: "invalidationPaths InvUndefined = Some [''/*'']"
    by (simp add: invalidationPaths_def invalidation_paths_def)
  have n: "[''/*''] \<noteq> []" by simp
  from versionToken_same_enumeration [OF e p n site_reads site_mirror_reads]
    e p site_reads site_mirror_reads site_token
  show ?thesis by (simp add: invalidation_wait_def)
qed

text \<open>
  The same files with the same bytes, enumerated by glob in two different orders,
  give two different version tokens.
\<close>

theorem versionToken_depends_on_enumeration_order:
  "readFile site_reversed = readFile site
   \<and> path_resolve site_reversed = path_resolve site
   \<and> set (invalidation_glob site_reversed ''dist'') = set (invalidation_glob site ''dist'')
   \<and> createDistributionInvalidation site ''dist'' InvUndefined =
       Inr (Some \<lparr>ir_paths = [''/*''], ir_version = ''a42c986cec934f3d3b9aaf419ca0e732'',
                  ir_wait = Some False\<rparr>)
   \<and> createDistributionInvalidation site_reversed ''dist'' InvUndefined =
       Inr (Some \<lparr>ir_paths = [''/*''], ir_version = ''3bfc86e91266eedfcc2473290466bc51'',
                  ir_wait = Some False\<rparr>)"
proof -
  have "createDistributionInvalidation site_reversed ''dist'' InvUndefined =
       Inr (Some \<lparr>ir_paths = [''/*''], ir_version = ''3bfc86e91266eedfcc2473290466bc51'',
                  ir_wait = Some False\<rparr>)"
    by (simp add: site_reversed_def site_invalidation_simps site_reversed_token)
  moreover have "set (invalidation_glob site_reversed ''dist'') = set (invalidation_glob site ''dist'')"
    by (simp add: invalidation_glob_def site_reversed_def site_def)
  moreover have "readFile site_reversed = readFile site \<and> path_resolve site_reversed = path_resolve site"
    by (simp add: site_reversed_def site_def)
  ultimately show ?thesis using site_invalidation by simp
qed

lemma site_bin_uploadAssets: "uploadAssets site ''dist'' (Some site_bin_assets) = Inr site_bin_plan"
  by (simp add: site_simps site_bin_assets_def site_bin_rule_def site_bin_plan_def
      site_content_types)

theorem user_rule_without_cacheControl_shadows_builtins_witness:
  "uploadAssets site ''dist'' (Some site_bin_assets) = Inr site_bin_plan
   \<and> as_fileOptions site_bin_assets = Some ([] @ site_bin_rule # [])
   \<and> fo_cacheControl site_bin_rule = None
   \<and> matches site ''dist'' ''data.bin'' site_bin_rule
   \<and> matches site ''dist'' ''data.bin'' (hd (fileOptions (Some site_bin_assets)))
   \<and> (\<exists>b\<in>set site_bin_plan. bf_key b = ''data.bin'')
   \<and> map bf_cacheControl (filter (\<lambda>b. bf_key b = ''data.bin'') site_bin_plan) = [None]"
proof -
  have a: "as_fileOptions site_bin_assets = Some ([] @ site_bin_rule # [])"
    by (simp add: site_bin_assets_def)
  have c: "fo_cacheControl site_bin_rule = None"
    by (simp add: site_bin_rule_def)
  have m: "matches site ''dist'' ''data.bin'' site_bin_rule"
    by (simp add: matches_def rule_glob_def site_bin_rule_def site_def site_glob_def table_glob_def
        site_pattern_def site_resolve_def resolve_from_def)
  have m': "matches site ''dist'' ''data.bin'' (hd (fileOptions (Some site_bin_assets)))"
    by (simp add: matches_def rule_glob_def fileOptions_def site_def site_glob_def table_glob_def
        site_pattern_def site_resolve_def resolve_from_def)
  have l: "\<forall>r\<in>set []. \<not> matches site ''dist'' ''data.bin'' r"
    by simp
  have f: "map bf_cacheControl (filter (\<lambda>b. bf_key b = ''data.bin'') site_bin_plan) = [None]"
    by (simp add: site_bin_plan_def)
  from user_rule_without_cacheControl_shadows_builtins [OF site_bin_uploadAssets a c m l]
    site_bin_uploadAssets a c m m' f
  show ?thesis by simp
qed




text \<open>
  C1 (rule precedence; the part on contentType). The rule that governs
  \<^verbatim>\<open>data.bin\<close> is the user rule, declared last, and it sets a content type; the record
  of the file does not carry it: its content type is the one derived from the file name.
  (That the governing rule is the last declared one that matches, and that the record's
  cacheControl is that rule's, is \<open>plan_rule_precedence\<close>.)
\<close>

theorem rule_contentType_not_applied:
  "uploadAssets site ''dist'' (Some site_bin_assets) = Inr site_bin_plan
   \<and> matches site ''dist'' ''data.bin'' site_bin_rule
   \<and> fo_contentType site_bin_rule = Some ''application/x-binary''
   \<and> map (\<lambda>b. (bf_key b, bf_contentType b)) site_bin_plan =
       [(''data.bin'', ''application/octet-stream''),
        (''app.js'', ''text/javascript;charset=UTF-8''),
        (''index.html'', ''text/html;charset=UTF-8''),
        (''.well-known/site-association-json'', ''application/json;charset=UTF-8'')]"
  by (simp add: site_bin_uploadAssets)
     (simp add: site_bin_plan_def site_bin_rule_def matches_def rule_glob_def site_def
        site_glob_def table_glob_def site_pattern_def site_resolve_def resolve_from_def)

text \<open>
  C3 (charset and the configured text encoding). \<open>getContentType\<close> appends the
  charset of the encoding it is given and none for \<open>none\<close> (\<open>getContentType_known\<close>), but
  \<open>uploadAssets\<close> always gives it \<open>UTF-8\<close>: with \<^verbatim>\<open>textEncoding: "none"\<close> configured
  the plan is the one of the default configuration, and \<^verbatim>\<open>index.html\<close> is served as
  \<open>text/html;charset=UTF-8\<close>.
\<close>

theorem textEncoding_not_applied:
  "uploadAssets site ''dist'' (Some \<lparr>as_textEncoding = Some ''none'', as_fileOptions = None\<rparr>)
     = Inr site_plan
   \<and> map (\<lambda>b. (bf_key b, bf_contentType b)) site_plan =
       [(''app.js'', ''text/javascript;charset=UTF-8''),
        (''index.html'', ''text/html;charset=UTF-8''),
        (''data.bin'', ''application/octet-stream''),
        (''.well-known/site-association-json'', ''application/json;charset=UTF-8'')]
   \<and> getContentType ''index.html'' ''none'' = ''text/html''"
proof -
  have "getContentType ''index.html'' ''none'' = ''text/html''"
    by code_simp
  moreover have "uploadAssets site ''dist''
      (Some \<lparr>as_textEncoding = Some ''none'', as_fileOptions = None\<rparr>) = Inr site_plan"
    by (simp add: site_simps site_plan_def site_content_types)
  ultimately show ?thesis by (simp add: site_plan_def)
qed

end
